theory Spec2Isabelle
  imports Main "HOL-Library.Sublist"
begin

section \<open>Project Tag Mover: a shallow embedding of main.js\<close>

text \<open>
  The plugin reads a Markdown note, collects tags from its YAML frontmatter and from
  its body, picks a destination folder from a rule table (or from a tag prefix) and
  asks the host to move the note there.  The embedding follows \<^verbatim>\<open>main.js\<close>
  function by function and keeps its names.

  Strings are JavaScript strings whose code units are below 256, written as
  \<^typ>\<open>string\<close>.  Host calls (\<^verbatim>\<open>vault.read\<close>, \<^verbatim>\<open>adapter.exists\<close>,
  \<^verbatim>\<open>adapter.mkdir\<close>, \<^verbatim>\<open>fileManager.renameFile\<close>, \<^verbatim>\<open>parseYaml\<close>,
  \<^verbatim>\<open>normalizePath\<close>) are not part of the plugin: they are fields of a record
  of host operations over an abstract vault state.  Every request made to the host and
  every notice or console warning/error is recorded in an event list; the
  \<^verbatim>\<open>console.log\<close> progress lines are left out.
\<close>

subsection \<open>Characters and string primitives\<close>

text \<open>The class \<^verbatim>\<open>\s\<close> of JavaScript regular expressions, for code units below 256.\<close>

definition isSpace :: "char \<Rightarrow> bool" where
  "isSpace c = (c \<in> set [CHR 0x09, CHR 0x0A, CHR 0x0B, CHR 0x0C, CHR 0x0D, CHR 0x20, CHR 0xA0])"

text \<open>The class \<^verbatim>\<open>\w\<close>, that is \<^verbatim>\<open>[A-Za-z0-9_]\<close>.\<close>

definition isWordChar :: "char \<Rightarrow> bool" where
  "isWordChar c = (let n = (of_char c :: nat) in
     (65 \<le> n \<and> n \<le> 90) \<or> (97 \<le> n \<and> n \<le> 122) \<or> (48 \<le> n \<and> n \<le> 57) \<or> n = 95)"

text \<open>The class \<^verbatim>\<open>[\w/-]\<close> of the body regular expression of \<^verbatim>\<open>processFile\<close>.\<close>

definition isTagChar :: "char \<Rightarrow> bool" where
  "isTagChar c = (isWordChar c \<or> c = CHR ''/'' \<or> c = CHR ''-'')"

text \<open>The classes \<^verbatim>\<open>["']\<close> and \<^verbatim>\<open>["'#]\<close> of \<^verbatim>\<open>moveActiveFile\<close>.\<close>

definition isQuote :: "char \<Rightarrow> bool" where
  "isQuote c = (c = CHR 0x22 \<or> c = CHR 0x27)"

definition isQuoteOrHash :: "char \<Rightarrow> bool" where
  "isQuoteOrHash c = (isQuote c \<or> c = CHR ''#'')"

definition newline :: char where
  "newline = CHR 0x0A"

text \<open>\<^verbatim>\<open>s.startsWith(p)\<close> and \<^verbatim>\<open>s.endsWith(p)\<close>.\<close>

definition startsWith :: "string \<Rightarrow> string \<Rightarrow> bool" where
  "startsWith s p = (take (length p) s = p)"

definition endsWith :: "string \<Rightarrow> string \<Rightarrow> bool" where
  "endsWith s p = (length p \<le> length s \<and> drop (length s - length p) s = p)"

text \<open>\<^verbatim>\<open>s.replace(/^#/, "")\<close>: one leading hash mark is removed, if there is one.\<close>

fun stripHash :: "string \<Rightarrow> string" where
  "stripHash [] = []"
| "stripHash (c # cs) = (if c = CHR ''#'' then cs else c # cs)"

text \<open>
  \<^verbatim>\<open>s.replace(/^["'#]+|["']+$/g, "")\<close>.  The global replace first meets the run of
  quotes and hash marks at index 0 (first alternative), then, scanning on from the end
  of that run, the leftmost position from which only quotes remain up to the end of
  the string (second alternative), which is the start of the trailing run of quotes.
\<close>

definition stripQuotes :: "string \<Rightarrow> string" where
  "stripQuotes s = rev (dropWhile isQuote (rev (dropWhile isQuoteOrHash s)))"

text \<open>The callback of \<^verbatim>\<open>tags.map(...)\<close> in \<^verbatim>\<open>moveActiveFile\<close> (line 98).\<close>

definition normalizeTag :: "string \<Rightarrow> string" where
  "normalizeTag t = stripHash (stripQuotes t)"

text \<open>
  \<^verbatim>\<open>s.lastIndexOf("/")\<close> followed by \<^verbatim>\<open>s.substring(0, i)\<close>: the text before the
  last slash; \<^verbatim>\<open>lastIndexOf\<close> gives -1 when there is no slash and
  \<^verbatim>\<open>substring(0, -1)\<close> is the empty string.
\<close>

fun lastIndexOf :: "string \<Rightarrow> char \<Rightarrow> nat option" where
  "lastIndexOf [] c = None"
| "lastIndexOf (x # xs) c =
     (case lastIndexOf xs c of
        Some i \<Rightarrow> Some (Suc i)
      | None \<Rightarrow> if x = c then Some 0 else None)"

definition substringTo :: "string \<Rightarrow> nat option \<Rightarrow> string" where
  "substringTo s i = (case i of None \<Rightarrow> [] | Some n \<Rightarrow> take n s)"

subsection \<open>JavaScript values returned by the YAML parser\<close>

text \<open>
  The values \<^verbatim>\<open>parseYaml\<close> can return: numbers are the integers whose
  \<^verbatim>\<open>String\<close> form is plain decimal (magnitude below \<open>10^21\<close>).
\<close>

datatype jsval =
    Undefined
  | Null
  | Bool bool
  | Num int
  | Str string
  | Arr "jsval list"
  | Obj "(string \<times> jsval) list"

text \<open>Truthiness, as tested by \<^verbatim>\<open>if (v)\<close> and \<^verbatim>\<open>a && b\<close>.\<close>

fun truthy :: "jsval \<Rightarrow> bool" where
  "truthy Undefined = False"
| "truthy Null = False"
| "truthy (Bool b) = b"
| "truthy (Num n) = (n \<noteq> 0)"
| "truthy (Str s) = (s \<noteq> [])"
| "truthy (Arr xs) = True"
| "truthy (Obj kvs) = True"

text \<open>
  Property access \<^verbatim>\<open>v.tags\<close> on a value that is not null or undefined; the keys
  of an object are distinct.
\<close>

fun getProp :: "jsval \<Rightarrow> string \<Rightarrow> jsval" where
  "getProp (Obj kvs) k = (case map_of kvs k of Some v \<Rightarrow> v | None \<Rightarrow> Undefined)"
| "getProp v k = Undefined"

definition digitChar :: "nat \<Rightarrow> char" where
  "digitChar d = ''0123456789'' ! d"

fun digitsOf :: "nat \<Rightarrow> string" where
  "digitsOf n = (if n < 10 then [digitChar n] else digitsOf (n div 10) @ [digitChar (n mod 10)])"

definition showInt :: "int \<Rightarrow> string" where
  "showInt i = (if i < 0 then CHR ''-'' # digitsOf (nat (- i)) else digitsOf (nat i))"

fun joinWith :: "string \<Rightarrow> string list \<Rightarrow> string" where
  "joinWith sep [] = []"
| "joinWith sep [x] = x"
| "joinWith sep (x # y # ys) = x @ sep @ joinWith sep (y # ys)"

text \<open>
  \<^verbatim>\<open>String(v)\<close>.  An array is joined with commas, its null and undefined elements
  printing as the empty string.
\<close>

fun String :: "jsval \<Rightarrow> string" where
  "String Undefined = ''undefined''"
| "String Null = ''null''"
| "String (Bool b) = (if b then ''true'' else ''false'')"
| "String (Num n) = showInt n"
| "String (Str s) = s"
| "String (Arr xs) =
     joinWith '','' (map (\<lambda>x. if x = Undefined \<or> x = Null then [] else String x) xs)"
| "String (Obj kvs) = ''[object Object]''"

text \<open>\<^verbatim>\<open>Array.isArray(v) ? v : [v]\<close>.\<close>

fun asArray :: "jsval \<Rightarrow> jsval list" where
  "asArray (Arr xs) = xs"
| "asArray v = [v]"

subsection \<open>Settings, files, host operations and events\<close>

record MoveRule =
  tagPattern :: string
  destination :: string

record Settings =
  tagPrefix :: string
  rootFolder :: string
  notesFolder :: string
  tagRules :: "MoveRule list"

definition DEFAULT_SETTINGS :: Settings where
  "DEFAULT_SETTINGS =
     \<lparr>tagPrefix = ''#pjt/'', rootFolder = ''03_project'', notesFolder = ''02/notes'',
      tagRules = [\<lparr>tagPattern = ''work/urgent'', destination = ''01_inbox/urgent''\<rparr>,
                  \<lparr>tagPattern = ''personal/health'', destination = ''04_personal/health''\<rparr>]\<rparr>"

text \<open>A \<^verbatim>\<open>TFile\<close>: its vault path and its base name (\<^verbatim>\<open>file.name\<close>).\<close>

record TFile =
  path :: string
  name :: string

text \<open>
  What an \<^verbatim>\<open>async\<close> function can throw: the rejection of a host promise, or one
  of the \<^verbatim>\<open>Error\<close> objects that \<^verbatim>\<open>processFile\<close> creates (read failure, no
  tags found, move by rule failed, move by prefix tag failed, no matching tag).
\<close>

datatype error =
    HostFailure
  | ReadFailedError
  | NoTagsError
  | RuleMoveFailed string string
  | PjtMoveFailed string
  | NoMatchingTagError

text \<open>The texts shown with \<^verbatim>\<open>new Notice\<close>, and the console warnings and errors.\<close>

datatype message =
    InvalidPathSpecified string
  | BlockedMaliciousPath string
  | MovedTo string
  | MoveFailedNotice
  | NoTargetFiles
  | Completed nat nat

datatype console =
    YamlParseFailed
  | ReadFailedLog
  | InvalidOrTraversalPath string
  | EscapingVaultRoot string
  | MoveFailedLog
  | FileProcessingFailed string error

datatype event =
    Read string
  | Exists string
  | Mkdir string
  | Rename string string
  | Notice message
  | ConsoleWarn console
  | ConsoleError console

text \<open>
  The host, over a vault state \<open>'w\<close>.  A rejected promise is \<open>None\<close> for the
  two queries and the flag \<open>False\<close> for the two updates, which return the vault as
  they left it.  \<^verbatim>\<open>parseYaml\<close> throws on malformed input (\<open>None\<close>).
\<close>

record 'w Host =
  getMarkdownFiles :: "'w \<Rightarrow> TFile list"
  vault_read :: "'w \<Rightarrow> TFile \<Rightarrow> string option"
  adapter_exists :: "'w \<Rightarrow> string \<Rightarrow> bool option"
  adapter_mkdir :: "'w \<Rightarrow> string \<Rightarrow> bool \<times> 'w"
  renameFile :: "'w \<Rightarrow> TFile \<Rightarrow> string \<Rightarrow> bool \<times> 'w"
  parseYaml :: "string \<Rightarrow> jsval option"
  normalizePath :: "string \<Rightarrow> string"

subsection \<open>Tag extraction (steps 1 and 2 of \<^verbatim>\<open>processFile\<close>)\<close>

text \<open>
  The first occurrence of a text: what precedes it and what follows it.  This is how
  the lazy group \<^verbatim>\<open>([\s\S]*?)\<close> followed by a literal matches.
\<close>

fun findSub :: "string \<Rightarrow> string \<Rightarrow> (string \<times> string) option" where
  "findSub needle [] = (if needle = [] then Some ([], []) else None)"
| "findSub needle (c # cs) =
     (if startsWith (c # cs) needle then Some ([], drop (length needle) (c # cs))
      else map_option (\<lambda>(before, after). (c # before, after)) (findSub needle cs))"

fun firstSome :: "('a \<Rightarrow> 'b option) \<Rightarrow> 'a list \<Rightarrow> 'b option" where
  "firstSome f [] = None"
| "firstSome f (x # xs) = (case f x of Some y \<Rightarrow> Some y | None \<Rightarrow> firstSome f xs)"

text \<open>
  \<^verbatim>\<open>content.match(/^---\s*\n([\s\S]*?)\n---/)\<close>, giving the group
  \<^verbatim>\<open>fmMatch[1]\<close> and \<^verbatim>\<open>content.slice(fmMatch[0].length)\<close>.  After the three
  dashes the greedy \<^verbatim>\<open>\s*\<close> takes the whole run of white space and gives it back
  one character at a time; with \<open>k\<close> characters kept, the next one must be a
  newline and the closing \<^verbatim>\<open>\n---\<close> must occur further on.
\<close>

definition fmMatch :: "string \<Rightarrow> (string \<times> string) option" where
  "fmMatch content =
     (if startsWith content ''---'' then
        let r = drop 3 content; n = length (takeWhile isSpace r) in
        firstSome (\<lambda>k. if r ! k = newline then findSub (newline # ''---'') (drop (Suc k) r) else None)
          (rev [0..<n])
      else None)"

text \<open>
  The \<^verbatim>\<open>try\<close> block on the frontmatter: the parsed \<^verbatim>\<open>tags\<close> entry, as an
  array, each element as a string without one leading hash mark.  A parse failure is
  caught and logged.
\<close>

definition frontmatterTags :: "'w Host \<Rightarrow> string \<Rightarrow> string list \<times> event list" where
  "frontmatterTags h fm =
     (case parseYaml h fm of
        None \<Rightarrow> ([], [ConsoleWarn YamlParseFailed])
      | Some fmObj \<Rightarrow>
          if truthy fmObj \<and> truthy (getProp fmObj ''tags'')
          then (map (\<lambda>t. stripHash (String t)) (asArray (getProp fmObj ''tags'')), [])
          else ([], []))"

text \<open>
  \<^verbatim>\<open>(?:#)?([\w/-]+)(?=\s|$)\<close> tried at the head of a string: the captured group
  and the text after the match.  The greedy group must run up to white space or the end.
\<close>

definition matchTagAt :: "string \<Rightarrow> (string \<times> string) option" where
  "matchTagAt s =
     (let s1 = stripHash s; run = takeWhile isTagChar s1; rest = dropWhile isTagChar s1 in
      if run \<noteq> [] \<and> (rest = [] \<or> isSpace (hd rest)) then Some (run, rest) else None)"

text \<open>
  The loop \<^verbatim>\<open>while ((match = regex.exec(body)) !== null) tags.push(match[1])\<close> with
  \<^verbatim>\<open>/(?:^|\s)(?:#)?([\w/-]+)(?=\s|$)/g\<close>.  The flag tells whether the current
  position is index 0, where \<^verbatim>\<open>^\<close> matches; elsewhere a match starts with a
  white-space character.  After a match the search goes on from its end.
\<close>

function scanFrom :: "bool \<Rightarrow> string \<Rightarrow> string list" where
  "scanFrom atStart s =
     (case (if atStart then matchTagAt s else None) of
        Some (tag, rest) \<Rightarrow> tag # scanFrom False rest
      | None \<Rightarrow>
          (case s of
             [] \<Rightarrow> []
           | c # cs \<Rightarrow>
               (case (if isSpace c then matchTagAt cs else None) of
                  Some (tag, rest) \<Rightarrow> tag # scanFrom False rest
                | None \<Rightarrow> scanFrom False cs)))"
  by pat_completeness auto
termination
proof -
  have shorter: "length rest < length s" if "matchTagAt s = Some (tag, rest)" for s tag rest
  proof -
    from that have r: "rest = dropWhile isTagChar (stripHash s)"
      and t: "takeWhile isTagChar (stripHash s) \<noteq> []"
      by (auto simp: matchTagAt_def Let_def split: if_splits)
    have "length (takeWhile isTagChar (stripHash s)) + length rest = length (stripHash s)"
      unfolding r by (metis length_append takeWhile_dropWhile_id)
    moreover have "length (stripHash s) \<le> length s"
      by (cases s) auto
    ultimately show ?thesis using t by (cases "takeWhile isTagChar (stripHash s)") auto
  qed
  show ?thesis
    by (relation "measure (\<lambda>(atStart, s). length s)") (auto split: if_splits dest: shorter)
qed

definition extractTags :: "'w Host \<Rightarrow> string \<Rightarrow> string list \<times> event list" where
  "extractTags h content =
     (case fmMatch content of
        None \<Rightarrow> (scanFrom True content, [])
      | Some (fm, body) \<Rightarrow>
          (let (fmTags, evs) = frontmatterTags h fm in (fmTags @ scanFrom True body, evs)))"

subsection \<open>Choosing the destination (steps 3 and 4 of \<^verbatim>\<open>processFile\<close>)\<close>

text \<open>
  The loop \<^verbatim>\<open>for (const pattern of tags)\<close> with \<^verbatim>\<open>tagRules.find\<close> inside: the
  first tag for which some rule matches, with the first such rule of the table.
\<close>

fun firstRuleMatch :: "MoveRule list \<Rightarrow> string list \<Rightarrow> (string \<times> MoveRule) option" where
  "firstRuleMatch rules [] = None"
| "firstRuleMatch rules (pattern # rest) =
     (let normalizedPattern = stripHash pattern in
      case List.find (\<lambda>r. stripHash (tagPattern r) = normalizedPattern) rules of
        Some rule \<Rightarrow> Some (pattern, rule)
      | None \<Rightarrow> firstRuleMatch rules rest)"

text \<open>
  What \<^verbatim>\<open>processFile\<close> decides from the tags: a rule and the tag that matched it,
  or the tag found by \<^verbatim>\<open>tags.find(t => t.startsWith(pjtPrefix))\<close> with its text
  after the prefix, or nothing.  The test \<^verbatim>\<open>if (pjtTag)\<close> fails on the empty string.
\<close>

datatype resolution =
    RuleMatch string MoveRule
  | PrefixMatch string string
  | NoMatch

definition resolve :: "Settings \<Rightarrow> string list \<Rightarrow> resolution" where
  "resolve s tags =
     (case firstRuleMatch (tagRules s) tags of
        Some (pattern, rule) \<Rightarrow> RuleMatch pattern rule
      | None \<Rightarrow>
          (let pjtPrefix = stripHash (tagPrefix s) in
           case List.find (\<lambda>t. startsWith t pjtPrefix) tags of
             Some pjtTag \<Rightarrow>
               if pjtTag \<noteq> [] then PrefixMatch pjtTag (drop (length pjtPrefix) pjtTag)
               else NoMatch
           | None \<Rightarrow> NoMatch))"

subsection \<open>\<^verbatim>\<open>moveFileToProject\<close>\<close>

text \<open>The first guard: the normalised segment is empty, a dot, or starts with two dots.\<close>

definition invalidSegment :: "string \<Rightarrow> bool" where
  "invalidSegment sanitizedPathSegment =
     (sanitizedPathSegment = [] \<or> sanitizedPathSegment = ''.''
      \<or> startsWith sanitizedPathSegment ''..'')"

text \<open>The variable \<^verbatim>\<open>targetPath\<close>: the joined path, normalised as a whole.\<close>

definition targetPathOf :: "'w Host \<Rightarrow> Settings \<Rightarrow> TFile \<Rightarrow> string \<Rightarrow> bool \<Rightarrow> string" where
  "targetPathOf h s file path' isFullPath =
     (let sanitizedPathSegment = normalizePath h path';
          baseFolder = (if isFullPath then [] else rootFolder s);
          preliminaryTargetPath =
            (if isFullPath then sanitizedPathSegment @ ''/'' @ name file
             else baseFolder @ ''/'' @ sanitizedPathSegment @ ''/'' @ name file)
      in normalizePath h preliminaryTargetPath)"

text \<open>
  The \<^verbatim>\<open>try\<close> block: the folder is looked up and created when its path is not
  empty and it does not exist, then the file is renamed.  Any rejection leaves the block.
\<close>

definition renameStep :: "'w Host \<Rightarrow> TFile \<Rightarrow> string \<Rightarrow> 'w \<Rightarrow> event list \<Rightarrow> (error + bool) \<times> 'w \<times> event list" where
  "renameStep h file targetPath w evs =
     (case renameFile h w file targetPath of
        (True, w') \<Rightarrow> (Inr True, w', evs @ [Rename (path file) targetPath, Notice (MovedTo targetPath)])
      | (False, w') \<Rightarrow> (Inl HostFailure, w', evs @ [Rename (path file) targetPath]))"

definition moveAttempt :: "'w Host \<Rightarrow> TFile \<Rightarrow> string \<Rightarrow> string \<Rightarrow> 'w \<Rightarrow> (error + bool) \<times> 'w \<times> event list" where
  "moveAttempt h file targetPath folderPath w =
     (if folderPath \<noteq> [] then
        (case adapter_exists h w folderPath of
           None \<Rightarrow> (Inl HostFailure, w, [Exists folderPath])
         | Some True \<Rightarrow> renameStep h file targetPath w [Exists folderPath]
         | Some False \<Rightarrow>
             (case adapter_mkdir h w folderPath of
                (True, w') \<Rightarrow> renameStep h file targetPath w' [Exists folderPath, Mkdir folderPath]
              | (False, w') \<Rightarrow> (Inl HostFailure, w', [Exists folderPath, Mkdir folderPath])))
      else renameStep h file targetPath w [])"

definition moveFileToProject ::
  "'w Host \<Rightarrow> Settings \<Rightarrow> TFile \<Rightarrow> string \<Rightarrow> bool \<Rightarrow> 'w \<Rightarrow> (error + bool) \<times> 'w \<times> event list" where
  "moveFileToProject h s file path' isFullPath w =
     (if invalidSegment (normalizePath h path')
      then (Inr False, w, [Notice (InvalidPathSpecified path'), ConsoleError (InvalidOrTraversalPath path')])
      else
        let targetPath = targetPathOf h s file path' isFullPath in
        if startsWith targetPath ''../''
        then (Inr False, w, [Notice (BlockedMaliciousPath targetPath), ConsoleError (EscapingVaultRoot targetPath)])
        else
          let folderPath = substringTo targetPath (lastIndexOf targetPath (CHR ''/'')) in
          case moveAttempt h file targetPath folderPath w of
            (Inl e, w', evs) \<Rightarrow> (Inr False, w', evs @ [ConsoleError MoveFailedLog, Notice MoveFailedNotice])
          | (Inr b, w', evs) \<Rightarrow> (Inr b, w', evs))"

subsection \<open>\<^verbatim>\<open>processFile\<close> and \<^verbatim>\<open>moveAllFiles\<close>\<close>

text \<open>
  The call of \<^verbatim>\<open>moveFileToProject\<close> from \<^verbatim>\<open>processFile\<close>: a false result is
  turned into the given error, an exception would pass through.
\<close>

definition moveOrThrow ::
  "'w Host \<Rightarrow> Settings \<Rightarrow> TFile \<Rightarrow> string \<Rightarrow> bool \<Rightarrow> error \<Rightarrow> 'w \<Rightarrow> event list \<Rightarrow> (error + unit) \<times> 'w \<times> event list" where
  "moveOrThrow h s file path' isFullPath err w evs =
     (case moveFileToProject h s file path' isFullPath w of
        (Inr moveSuccess, w', evs') \<Rightarrow> (if \<not> moveSuccess then Inl err else Inr (), w', evs @ evs')
      | (Inl e, w', evs') \<Rightarrow> (Inl e, w', evs @ evs'))"

definition processFile :: "'w Host \<Rightarrow> Settings \<Rightarrow> TFile \<Rightarrow> 'w \<Rightarrow> (error + unit) \<times> 'w \<times> event list" where
  "processFile h s file w =
     (case vault_read h w file of
        None \<Rightarrow> (Inl ReadFailedError, w, [Read (path file), ConsoleError ReadFailedLog])
      | Some content \<Rightarrow>
          (let (tags, evs0) = extractTags h content; evs = Read (path file) # evs0 in
           if tags = [] then (Inl NoTagsError, w, evs)
           else
             (case resolve s tags of
                RuleMatch pattern rule \<Rightarrow>
                  moveOrThrow h s file (destination rule) True
                    (RuleMoveFailed pattern (destination rule)) w evs
              | PrefixMatch pjtTag relativePath \<Rightarrow>
                  moveOrThrow h s file relativePath False (PjtMoveFailed pjtTag) w evs
              | NoMatch \<Rightarrow> (Inl NoMatchingTagError, w, evs))))"

text \<open>
  The loop of \<^verbatim>\<open>moveAllFiles\<close> with its two counters; the \<^verbatim>\<open>catch\<close> logs the
  error and counts the file as failed.
\<close>

fun batchLoop :: "'w Host \<Rightarrow> Settings \<Rightarrow> TFile list \<Rightarrow> nat \<Rightarrow> nat \<Rightarrow> 'w \<Rightarrow> nat \<times> nat \<times> 'w \<times> event list" where
  "batchLoop h s [] successCount failCount w = (successCount, failCount, w, [])"
| "batchLoop h s (file # files) successCount failCount w =
     (case processFile h s file w of
        (Inr u, w', evs) \<Rightarrow>
          (case batchLoop h s files (Suc successCount) failCount w' of
             (sc, fc, w'', evs') \<Rightarrow> (sc, fc, w'', evs @ evs'))
      | (Inl e, w', evs) \<Rightarrow>
          (case batchLoop h s files successCount (Suc failCount) w' of
             (sc, fc, w'', evs') \<Rightarrow>
               (sc, fc, w'', evs @ ConsoleError (FileProcessingFailed (path file) e) # evs')))"

definition targetFiles :: "Settings \<Rightarrow> TFile list \<Rightarrow> TFile list" where
  "targetFiles s files =
     filter (\<lambda>file. startsWith (path file) (notesFolder s) \<and> endsWith (path file) ''.md'') files"

text \<open>The report \<open>(successCount, failCount)\<close>, when there is one, the vault and the events.\<close>

definition moveAllFiles :: "'w Host \<Rightarrow> Settings \<Rightarrow> 'w \<Rightarrow> (nat \<times> nat) option \<times> 'w \<times> event list" where
  "moveAllFiles h s w =
     (let files = getMarkdownFiles h w; targets = targetFiles s files in
      if length targets = 0 then (None, w, [Notice NoTargetFiles])
      else
        (case batchLoop h s targets 0 0 w of
           (successCount, failCount, w', evs) \<Rightarrow>
             (Some (successCount, failCount), w', evs @ [Notice (Completed successCount failCount)])))"

subsection \<open>The statements of the specification, for comparison\<close>

text \<open>Splitting a string at every character of a class; the pieces may be empty.\<close>

fun splitBy :: "(char \<Rightarrow> bool) \<Rightarrow> string \<Rightarrow> string list" where
  "splitBy P [] = [[]]"
| "splitBy P (c # cs) =
     (if P c then [] # splitBy P cs
      else (case splitBy P cs of [] \<Rightarrow> [[c]] | t # ts \<Rightarrow> (c # t) # ts))"


text \<open>
  Section 4.1 of the specification on body tags: tokens bounded by white space or by
  the ends of the text, made of the characters \<^verbatim>\<open>[A-Za-z0-9_/-]\<close> only, with an
  optional single leading hash mark, which is dropped.
\<close>

definition spec_tokenTag :: "string \<Rightarrow> string option" where
  "spec_tokenTag token =
     (let t = stripHash token in if t \<noteq> [] \<and> list_all isTagChar t then Some t else None)"

definition spec_bodyTags :: "string \<Rightarrow> string list" where
  "spec_bodyTags body = List.map_filter spec_tokenTag (splitBy isSpace body)"

text \<open>
  Section 4.1 on the whole extraction, from the value of the \<^verbatim>\<open>tags\<close> key and the
  body: a scalar is a one-element sequence, every element is coerced to a string, and
  frontmatter tags come before body tags.
\<close>

definition spec_extract :: "jsval \<Rightarrow> string \<Rightarrow> string list" where
  "spec_extract tagsValue body = map String (asArray tagsValue) @ spec_bodyTags body"

text \<open>
  Section 4.2: candidate tags are normalised by stripping quotes and the leading hash
  mark, rule patterns and the prefix by stripping one leading hash mark.  Pass 1 takes
  the first tag that equals a rule pattern, pass 2 the first tag that starts with the
  prefix.
\<close>

fun spec_pass1 :: "MoveRule list \<Rightarrow> string list \<Rightarrow> (string \<times> bool) option" where
  "spec_pass1 rules [] = None"
| "spec_pass1 rules (t # ts) =
     (case List.find (\<lambda>r. stripHash (tagPattern r) = normalizeTag t) rules of
        Some r \<Rightarrow> Some (destination r, True)
      | None \<Rightarrow> spec_pass1 rules ts)"

definition spec_pass2 :: "string \<Rightarrow> string list \<Rightarrow> (string \<times> bool) option" where
  "spec_pass2 prefix' tags =
     (case List.find (\<lambda>t. startsWith (normalizeTag t) (stripHash prefix')) tags of
        Some t \<Rightarrow> Some (drop (length (stripHash prefix')) (normalizeTag t), False)
      | None \<Rightarrow> None)"

definition spec_resolve :: "Settings \<Rightarrow> string list \<Rightarrow> (string \<times> bool) option" where
  "spec_resolve s tags =
     (case spec_pass1 (tagRules s) tags of
        Some d \<Rightarrow> Some d
      | None \<Rightarrow> spec_pass2 (tagPrefix s) tags)"

text \<open>Section 4.4, step 1: the target path as a plain concatenation.\<close>

definition spec_targetPath :: "Settings \<Rightarrow> TFile \<Rightarrow> string \<Rightarrow> bool \<Rightarrow> string" where
  "spec_targetPath s file targetDirectory isFullPath =
     (if isFullPath then targetDirectory @ ''/'' @ name file
      else rootFolder s @ ''/'' @ targetDirectory @ ''/'' @ name file)"

text \<open>
  Modelled from the spec: \<^verbatim>\<open>normalizePath\<close> is imported from the host library
  and its code is not in the repository.  Section 4.3 says of it: "Normalize path
  separators and collapse redundant segments (equivalent to resolving \<^verbatim>\<open>.\<close> and
  redundant slashes) without touching the filesystem."  The path is split at slashes
  and backslashes, empty segments and single dots are dropped, and the remaining
  segments are joined with slashes.
\<close>

definition spec_normalizePath :: "string \<Rightarrow> string" where
  "spec_normalizePath p =
     joinWith ''/''
       (filter (\<lambda>seg. seg \<noteq> [] \<and> seg \<noteq> ''.'')
          (splitBy (\<lambda>c. c = CHR ''/'' \<or> c = CHR 0x5C) p))"

subsection \<open>An in-memory vault\<close>

text \<open>
  A vault on which the functions can be run: the notes with their contents, and the
  folders.  Its host never fails; failing hosts are obtained by updating its fields.
  The YAML parser is a parameter.
\<close>

record Vault =
  files :: "(string \<times> string) list"
  folders :: "string list"

definition baseName :: "string \<Rightarrow> string" where
  "baseName p = (case lastIndexOf p (CHR ''/'') of None \<Rightarrow> p | Some i \<Rightarrow> drop (Suc i) p)"

definition memoryHost :: "(string \<Rightarrow> jsval option) \<Rightarrow> Vault Host" where
  "memoryHost yaml =
     \<lparr>getMarkdownFiles = (\<lambda>v. map (\<lambda>(p, c). \<lparr>path = p, name = baseName p\<rparr>) (files v)),
      vault_read = (\<lambda>v file. map_of (files v) (path file)),
      adapter_exists = (\<lambda>v p. Some (p \<in> set (folders v))),
      adapter_mkdir = (\<lambda>v p. (True, v\<lparr>folders := folders v @ [p]\<rparr>)),
      renameFile = (\<lambda>v file p.
         (True, v\<lparr>files := map (\<lambda>(q, c). if q = path file then (p, c) else (q, c)) (files v)\<rparr>)),
      parseYaml = yaml,
      normalizePath = spec_normalizePath\<rparr>"

text \<open>A parser that knows one frontmatter text, and one that rejects every text.\<close>

definition yamlOf :: "string \<Rightarrow> jsval \<Rightarrow> string \<Rightarrow> jsval option" where
  "yamlOf fm v src = (if src = fm then Some v else Some Null)"

definition yamlFails :: "string \<Rightarrow> jsval option" where
  "yamlFails src = None"

subsection \<open>Observations and test data\<close>


text \<open>The note of the end-to-end example and a vault that holds it.\<close>

definition noteX :: TFile where
  "noteX = \<lparr>path = ''02/notes/x.md'', name = ''x.md''\<rparr>"

definition vaultX :: Vault where
  "vaultX = \<lparr>files = [(''02/notes/x.md'', ''pjt/q1'')], folders = []\<rparr>"


definition archiveVault :: Vault where
  "archiveVault = \<lparr>files = [(''02/notesarchive/x.md'', ''pjt/q1'')], folders = []\<rparr>"

text \<open>
  Documents: frontmatter \<^verbatim>\<open>tags: [a, b]\<close> with body \<^verbatim>\<open>#c d\<close>; the same tags
  repeated; a scalar \<^verbatim>\<open>tags: 0\<close>; a frontmatter block that does not parse; an
  opening line of dashes that is never closed.
\<close>

definition frontmatterDoc :: "string \<Rightarrow> string \<Rightarrow> string" where
  "frontmatterDoc fm body = ''---'' @ [newline] @ fm @ [newline] @ ''---'' @ [newline] @ body"

definition docAB :: string where
  "docAB = frontmatterDoc ''tags: [a, b]'' ''#c d''"

definition hostAB :: "Vault Host" where
  "hostAB = memoryHost (yamlOf ''tags: [a, b]'' (Obj [(''tags'', Arr [Str ''a'', Str ''b''])]))"

definition docDup :: string where
  "docDup = frontmatterDoc ''tags: [a, a]'' ''a #a''"

definition hostDup :: "Vault Host" where
  "hostDup = memoryHost (yamlOf ''tags: [a, a]'' (Obj [(''tags'', Arr [Str ''a'', Str ''a''])]))"

definition docZero :: string where
  "docZero = frontmatterDoc ''tags: 0'' []"

definition hostZero :: "Vault Host" where
  "hostZero = memoryHost (yamlOf ''tags: 0'' (Obj [(''tags'', Num 0)]))"



text \<open>A tag written with its double quotes, as a YAML string can hold it.\<close>

definition quotedUrgent :: string where
  "quotedUrgent = [CHR 0x22] @ ''work/urgent'' @ [CHR 0x22]"

definition quotedAlpha :: string where
  "quotedAlpha = [CHR 0x22] @ ''pjt/alpha'' @ [CHR 0x22]"

text \<open>
  The note of the in-memory vault with frontmatter \<^verbatim>\<open>tags: ['"work/urgent"']\<close>,
  and with frontmatter \<^verbatim>\<open>tags: '##pjt/alpha'\<close>, each with a parser that knows it.
\<close>

definition fmQuoted :: string where
  "fmQuoted = ''tags: ['' @ [CHR 0x27] @ quotedUrgent @ [CHR 0x27] @ '']''"

definition vaultQuoted :: Vault where
  "vaultQuoted = \<lparr>files = [(''02/notes/x.md'', frontmatterDoc fmQuoted [])], folders = []\<rparr>"

definition hostQuoted :: "Vault Host" where
  "hostQuoted = memoryHost (yamlOf fmQuoted (Obj [(''tags'', Arr [Str quotedUrgent])]))"

definition fmHashes :: string where
  "fmHashes = ''tags: '' @ [CHR 0x27] @ ''##pjt/alpha'' @ [CHR 0x27]"

definition vaultHashes :: Vault where
  "vaultHashes = \<lparr>files = [(''02/notes/x.md'', frontmatterDoc fmHashes [])], folders = []\<rparr>"

definition hostHashes :: "Vault Host" where
  "hostHashes = memoryHost (yamlOf fmHashes (Obj [(''tags'', Str ''##pjt/alpha'')]))"

text \<open>Notes whose body holds several tags: for the rule pass and for the prefix pass.\<close>

definition vaultRules :: Vault where
  "vaultRules = \<lparr>files = [(''02/notes/x.md'', ''random #personal/health work/urgent'')], folders = []\<rparr>"

definition vaultPrefix :: Vault where
  "vaultPrefix = \<lparr>files = [(''02/notes/x.md'', ''random pjt/alpha/beta pjt/other'')], folders = []\<rparr>"


section \<open>Properties\<close>

subsection \<open>Tag normalisation\<close>

lemma dropWhile_snoc_keep:
  assumes "\<not> P c"
  shows "\<exists>ys. dropWhile P (xs @ [c]) = ys @ [c]"
  using assms by (induction xs) auto

lemma stripTrailing_shape:
  assumes "\<not> isQuote c"
  shows "\<exists>zs. rev (dropWhile isQuote (rev (c # m))) = c # zs \<and> \<not> isQuote (last (c # zs))"
proof -
  obtain ys where ys: "dropWhile isQuote (rev (c # m)) = ys @ [c]"
    using dropWhile_snoc_keep [of isQuote c "rev m"] assms by auto
  have "\<not> isQuote (hd (dropWhile isQuote (rev (c # m))))"
    by (rule hd_dropWhile) (simp only: ys, simp)
  then have "\<not> isQuote (hd (ys @ [c]))"
    unfolding ys .
  then have "\<not> isQuote (last (c # rev ys))"
    by (cases ys) (auto simp: last_rev)
  with ys show ?thesis by auto
qed

text \<open>
  What is left after the quotes are stripped is empty, or starts with a character that
  is neither quote nor hash mark and ends with one that is no quote.
\<close>

lemma stripQuotes_shape:
  "stripQuotes s = [] \<or>
   (\<exists>c zs. stripQuotes s = c # zs \<and> \<not> isQuoteOrHash c \<and> \<not> isQuote (last (c # zs)))"
proof (cases "dropWhile isQuoteOrHash s")
  case Nil
  show ?thesis unfolding stripQuotes_def Nil by simp
next
  case (Cons c m)
  have c: "\<not> isQuoteOrHash c"
    using hd_dropWhile [of isQuoteOrHash s] Cons by simp
  then have "\<not> isQuote c" by (simp add: isQuoteOrHash_def)
  from stripTrailing_shape [OF this, of m] c show ?thesis
    unfolding stripQuotes_def Cons by blast
qed

lemma stripQuotes_fixed:
  assumes "\<not> isQuoteOrHash c" and "\<not> isQuote (last (c # zs))"
  shows "stripQuotes (c # zs) = c # zs"
proof -
  have "dropWhile isQuote (rev (c # zs)) = rev (c # zs)"
    using assms(2)
    by (metis hd_rev list.exhaust_sel rev_is_Nil_conv list.distinct(1) dropWhile.simps(2))
  then show ?thesis using assms(1) by (simp add: stripQuotes_def)
qed

text \<open>
  C8.  Tag normalisation as \<^verbatim>\<open>moveActiveFile\<close> does it (leading quotes and hash
  marks stripped, trailing quotes stripped, then one leading hash mark) is idempotent:
  normalising a normalised tag changes nothing.
\<close>

theorem normalizeTag_idempotent: "normalizeTag (normalizeTag t) = normalizeTag t"
proof -
  from stripQuotes_shape [of t] show ?thesis
  proof
    assume e: "stripQuotes t = []"
    have "stripQuotes [] = []" by (simp add: stripQuotes_def)
    with e show ?thesis by (simp add: normalizeTag_def)
  next
    assume "\<exists>c zs. stripQuotes t = c # zs \<and> \<not> isQuoteOrHash c \<and> \<not> isQuote (last (c # zs))"
    then obtain c zs where r: "stripQuotes t = c # zs" "\<not> isQuoteOrHash c" "\<not> isQuote (last (c # zs))"
      by blast
    then have h: "c \<noteq> CHR ''#''" by (auto simp: isQuoteOrHash_def)
    have "normalizeTag t = c # zs" using r(1) h by (simp add: normalizeTag_def)
    moreover have "normalizeTag (c # zs) = c # zs"
      using stripQuotes_fixed [OF r(2,3)] h by (simp add: normalizeTag_def)
    ultimately show ?thesis by simp
  qed
qed

subsection \<open>Evaluation rules\<close>

lemmas move_eval = moveFileToProject_def moveAttempt_def renameStep_def targetPathOf_def
  invalidSegment_def substringTo_def startsWith_def Let_def memoryHost_def spec_normalizePath_def
  noteX_def vaultX_def DEFAULT_SETTINGS_def

lemmas char_classes = isSpace_def isTagChar_def isWordChar_def newline_def
lemmas extract_eval = extractTags_def fmMatch_def frontmatterTags_def matchTagAt_def char_classes
lemmas batch_eval = moveAllFiles_def targetFiles_def processFile_def moveOrThrow_def resolve_def endsWith_def
  baseName_def

subsection \<open>Moving one file\<close>

lemma startsWith_iff: "startsWith s p \<longleftrightarrow> (\<exists>rest. s = p @ rest)"
  unfolding startsWith_def
  by (metis append_eq_conv_conj append_take_drop_id)

lemma endsWith_iff: "endsWith s p \<longleftrightarrow> (\<exists>stem. s = stem @ p)"
  unfolding endsWith_def
  by (metis append_eq_conv_conj append_take_drop_id length_append diff_add_inverse2 le_add2 length_drop)

text \<open>
  C2.  Before any request to the host, \<^verbatim>\<open>moveFileToProject\<close> rejects the move when
  the normalised segment is empty, is a single dot or begins with two dots, and when
  the path joined with its base folder and normalised again begins with \<^verbatim>\<open>../\<close>.
  In both cases the result is false, the vault is returned as it was, and the only
  events are the notice and the console error: no lookup, no directory creation, no
  rename.
\<close>

theorem sanitize_rejects:
  fixes h :: "'w Host" and s :: Settings and f :: TFile and p :: string and isFullPath :: bool and w :: 'w
  defines "segment \<equiv> normalizePath h p"
  defines "joined \<equiv> (if isFullPath then segment @ ''/'' @ name f
                        else rootFolder s @ ''/'' @ segment @ ''/'' @ name f)"
  shows "(segment = [] \<or> segment = ''.'' \<or> startsWith segment ''..'' \<longrightarrow>
            moveFileToProject h s f p isFullPath w =
              (Inr False, w, [Notice (InvalidPathSpecified p), ConsoleError (InvalidOrTraversalPath p)]))
       \<and> (\<not> (segment = [] \<or> segment = ''.'' \<or> startsWith segment ''..'') \<and>
            startsWith (normalizePath h joined) ''../'' \<longrightarrow>
            moveFileToProject h s f p isFullPath w =
              (Inr False, w, [Notice (BlockedMaliciousPath (normalizePath h joined)),
                              ConsoleError (EscapingVaultRoot (normalizePath h joined))]))"
  unfolding segment_def joined_def
  by (simp add: moveFileToProject_def invalidSegment_def targetPathOf_def Let_def)

text \<open>Both rejections on the in-memory vault: a traversal segment, and a root folder of two dots.\<close>

theorem sanitize_rejects_witness:
  "moveFileToProject (memoryHost yamlFails) DEFAULT_SETTINGS noteX ''../../etc'' True vaultX =
     (Inr False, vaultX, [Notice (InvalidPathSpecified ''../../etc''),
                          ConsoleError (InvalidOrTraversalPath ''../../etc'')])
   \<and> moveFileToProject (memoryHost yamlFails) (DEFAULT_SETTINGS\<lparr>rootFolder := ''..''\<rparr>) noteX ''x'' False vaultX =
     (Inr False, vaultX, [Notice (BlockedMaliciousPath ''../x/x.md''),
                          ConsoleError (EscapingVaultRoot ''../x/x.md'')])"
proof -
  have n1: "normalizePath (memoryHost yamlFails) ''../../etc'' = ''../../etc''"
    by (simp add: memoryHost_def spec_normalizePath_def)
  have n2: "normalizePath (memoryHost yamlFails) ''x'' = ''x''"
    by (simp add: memoryHost_def spec_normalizePath_def)
  have n3: "normalizePath (memoryHost yamlFails) ''../x/x.md'' = ''../x/x.md''"
    by (simp add: memoryHost_def spec_normalizePath_def)
  show ?thesis
    using sanitize_rejects [where h = "memoryHost yamlFails" and s = DEFAULT_SETTINGS and f = noteX
        and p = "''../../etc''" and isFullPath = True and w = vaultX]
      sanitize_rejects [where h = "memoryHost yamlFails" and s = "DEFAULT_SETTINGS\<lparr>rootFolder := ''..''\<rparr>"
        and f = noteX and p = "''x''" and isFullPath = False and w = vaultX]
    by (simp add: n1 n2 n3 startsWith_def noteX_def DEFAULT_SETTINGS_def)
qed

text \<open>
  C9.  \<^verbatim>\<open>moveFileToProject\<close> always returns a boolean and never throws: the result is
  true exactly when the path was not rejected and every host call that was made (the
  existence check, the directory creation, the rename) succeeded; any failure of these
  calls is caught and gives false.
\<close>

theorem moveFileToProject_never_throws:
  fixes h :: "'w Host" and s :: Settings and f :: TFile and p :: string and isFullPath :: bool and w :: 'w
  defines "tp \<equiv> targetPathOf h s f p isFullPath"
  defines "fp \<equiv> substringTo tp (lastIndexOf tp (CHR ''/''))"
  shows "\<exists>b w' evs. moveFileToProject h s f p isFullPath w = (Inr b, w', evs) \<and>
     (b = (\<not> invalidSegment (normalizePath h p) \<and> \<not> startsWith tp ''../'' \<and>
        (if fp = [] then fst (renameFile h w f tp)
         else (case adapter_exists h w fp of
                 None \<Rightarrow> False
               | Some True \<Rightarrow> fst (renameFile h w f tp)
               | Some False \<Rightarrow> fst (adapter_mkdir h w fp) \<and>
                   fst (renameFile h (snd (adapter_mkdir h w fp)) f tp)))))"
  unfolding tp_def fp_def
  by (auto simp: moveFileToProject_def moveAttempt_def renameStep_def Let_def
           split: option.splits bool.splits prod.splits)

text \<open>Hosts whose existence check, directory creation or rename fails, and one that succeeds.\<close>

theorem moveFileToProject_never_throws_witness:
  "moveFileToProject ((memoryHost yamlFails)\<lparr>adapter_exists := \<lambda>v p. None\<rparr>) DEFAULT_SETTINGS noteX ''q1'' False vaultX
     = (Inr False, vaultX, [Exists ''03_project/q1'', ConsoleError MoveFailedLog, Notice MoveFailedNotice])
   \<and> moveFileToProject ((memoryHost yamlFails)\<lparr>adapter_mkdir := \<lambda>v p. (False, v)\<rparr>) DEFAULT_SETTINGS noteX ''q1'' False vaultX
     = (Inr False, vaultX, [Exists ''03_project/q1'', Mkdir ''03_project/q1'', ConsoleError MoveFailedLog, Notice MoveFailedNotice])
   \<and> moveFileToProject ((memoryHost yamlFails)\<lparr>renameFile := \<lambda>v f p. (False, v)\<rparr>) DEFAULT_SETTINGS noteX ''q1'' False vaultX
     = (Inr False, vaultX\<lparr>folders := [''03_project/q1'']\<rparr>,
        [Exists ''03_project/q1'', Mkdir ''03_project/q1'', Rename ''02/notes/x.md'' ''03_project/q1/x.md'',
         ConsoleError MoveFailedLog, Notice MoveFailedNotice])
   \<and> fst (moveFileToProject (memoryHost yamlFails) DEFAULT_SETTINGS noteX ''q1'' False vaultX) = Inr True"
  using moveFileToProject_never_throws [where h = "(memoryHost yamlFails)\<lparr>adapter_exists := \<lambda>v p. None\<rparr>"
      and s = DEFAULT_SETTINGS and f = noteX and p = "''q1''" and isFullPath = False and w = vaultX]
  by (simp add: move_eval)

subsection \<open>The batch\<close>










text \<open>
  C10.  The batch filter compares strings, not path components: a listed file is kept
  exactly when its path is the notes folder text followed by anything and ends with
  \<^verbatim>\<open>.md\<close>.  With the notes folder \<^verbatim>\<open>02/notes\<close>, the note
  \<^verbatim>\<open>02/notesarchive/x.md\<close> of a sibling folder passes the filter and is processed.
\<close>

theorem batch_filter_is_raw_prefix:
  "(file \<in> set (targetFiles s listed) \<longleftrightarrow>
      file \<in> set listed \<and> (\<exists>rest. path file = notesFolder s @ rest) \<and> (\<exists>stem. path file = stem @ ''.md''))
   \<and> targetFiles DEFAULT_SETTINGS (getMarkdownFiles (memoryHost yamlFails) archiveVault)
       = [\<lparr>path = ''02/notesarchive/x.md'', name = ''x.md''\<rparr>]
   \<and> moveAllFiles (memoryHost yamlFails) DEFAULT_SETTINGS archiveVault =
       (Some (1, 0),
        \<lparr>files = [(''03_project/q1/x.md'', ''pjt/q1'')], folders = [''03_project/q1'']\<rparr>,
        [Read ''02/notesarchive/x.md'', Exists ''03_project/q1'', Mkdir ''03_project/q1'',
         Rename ''02/notesarchive/x.md'' ''03_project/q1/x.md'', Notice (MovedTo ''03_project/q1/x.md''),
         Notice (Completed 1 0)])"
proof (intro conjI)
  show "file \<in> set (targetFiles s listed) \<longleftrightarrow>
      file \<in> set listed \<and> (\<exists>rest. path file = notesFolder s @ rest) \<and> (\<exists>stem. path file = stem @ ''.md'')"
    by (simp add: targetFiles_def startsWith_iff endsWith_iff)
  show "targetFiles DEFAULT_SETTINGS (getMarkdownFiles (memoryHost yamlFails) archiveVault)
       = [\<lparr>path = ''02/notesarchive/x.md'', name = ''x.md''\<rparr>]"
    by (simp add: batch_eval move_eval archiveVault_def)
  show "moveAllFiles (memoryHost yamlFails) DEFAULT_SETTINGS archiveVault =
       (Some (1, 0),
        \<lparr>files = [(''03_project/q1/x.md'', ''pjt/q1'')], folders = [''03_project/q1'']\<rparr>,
        [Read ''02/notesarchive/x.md'', Exists ''03_project/q1'', Mkdir ''03_project/q1'',
         Rename ''02/notesarchive/x.md'' ''03_project/q1/x.md'', Notice (MovedTo ''03_project/q1/x.md''),
         Notice (Completed 1 0)])"
    by (simp add: batch_eval extract_eval move_eval archiveVault_def)
qed

text \<open>The characterisation used from right to left on the sibling folder.\<close>

theorem batch_filter_is_raw_prefix_witness:
  "\<lparr>path = ''02/notesarchive/x.md'', name = ''x.md''\<rparr>
     \<in> set (targetFiles DEFAULT_SETTINGS [\<lparr>path = ''02/notesarchive/x.md'', name = ''x.md''\<rparr>,
                                            \<lparr>path = ''02/other/y.md'', name = ''y.md''\<rparr>])"
proof (rule batch_filter_is_raw_prefix [THEN conjunct1, THEN iffD2], intro conjI)
  show "\<lparr>path = ''02/notesarchive/x.md'', name = ''x.md''\<rparr>
     \<in> set [\<lparr>path = ''02/notesarchive/x.md'', name = ''x.md''\<rparr>, \<lparr>path = ''02/other/y.md'', name = ''y.md''\<rparr>]"
    by simp
  show "\<exists>rest. path \<lparr>path = ''02/notesarchive/x.md'', name = ''x.md''\<rparr> = notesFolder DEFAULT_SETTINGS @ rest"
    by (rule exI [of _ "''archive/x.md''"]) (simp add: DEFAULT_SETTINGS_def)
  show "\<exists>stem. path \<lparr>path = ''02/notesarchive/x.md'', name = ''x.md''\<rparr> = stem @ ''.md''"
    by (rule exI [of _ "''02/notesarchive/x''"]) simp
qed

subsection \<open>The body scan finds the tokens of the specification\<close>

declare scanFrom.simps [simp del]

lemma tagChar_not_space: "isTagChar c \<Longrightarrow> \<not> isSpace c"
  by (auto simp: isTagChar_def isWordChar_def isSpace_def Let_def)

lemma hash_not_space: "\<not> isSpace (CHR ''#'')"
  by (simp add: isSpace_def)

lemma splitBy_unfold:
  "splitBy P s = takeWhile (\<lambda>c. \<not> P c) s #
     (case dropWhile (\<lambda>c. \<not> P c) s of [] \<Rightarrow> [] | d # r \<Rightarrow> splitBy P r)"
  by (induction s) auto

lemma splitBy_token:
  "splitBy isSpace s = takeWhile (\<lambda>c. \<not> isSpace c) s #
     tl (splitBy isSpace (dropWhile (\<lambda>c. \<not> isSpace c) s))"
proof -
  have "tl (splitBy isSpace (dropWhile (\<lambda>c. \<not> isSpace c) s)) =
        (case dropWhile (\<lambda>c. \<not> isSpace c) s of [] \<Rightarrow> [] | d # r \<Rightarrow> splitBy isSpace r)"
  proof (cases "dropWhile (\<lambda>c. \<not> isSpace c) s")
    case Nil
    show ?thesis unfolding Nil by simp
  next
    case (Cons d r)
    have "isSpace d" using hd_dropWhile [of "\<lambda>c. \<not> isSpace c" s] Cons by simp
    then show ?thesis by (simp add: Cons)
  qed
  then show ?thesis using splitBy_unfold [of isSpace s] by simp
qed

lemma run_is_token:
  assumes "\<And>c. P c \<Longrightarrow> Q c"
    and "dropWhile P u = [] \<or> \<not> Q (hd (dropWhile P u))"
  shows "takeWhile Q u = takeWhile P u \<and> dropWhile Q u = dropWhile P u"
  using assms by (induction u) (auto split: if_splits)

lemma run_is_not_token:
  assumes "\<And>c. P c \<Longrightarrow> Q c"
    and "dropWhile P u \<noteq> []" and "Q (hd (dropWhile P u))"
  shows "\<not> list_all P (takeWhile Q u)"
  using assms by (induction u) (auto split: if_splits)

lemma match_is_token_plain:
  "(let run = takeWhile isTagChar u; rest = dropWhile isTagChar u in
      if run \<noteq> [] \<and> (rest = [] \<or> isSpace (hd rest)) then Some (run, rest) else None) =
   (let t = takeWhile (\<lambda>c. \<not> isSpace c) u in
      if t \<noteq> [] \<and> list_all isTagChar t then Some (t, dropWhile (\<lambda>c. \<not> isSpace c) u) else None)"
proof (cases "dropWhile isTagChar u = [] \<or> isSpace (hd (dropWhile isTagChar u))")
  case True
  then have "dropWhile isTagChar u = [] \<or> \<not> \<not> isSpace (hd (dropWhile isTagChar u))" by simp
  from run_is_token [of isTagChar "\<lambda>c. \<not> isSpace c" u, OF tagChar_not_space this]
  have e: "takeWhile (\<lambda>c. \<not> isSpace c) u = takeWhile isTagChar u"
    "dropWhile (\<lambda>c. \<not> isSpace c) u = dropWhile isTagChar u" by simp_all
  have "list_all isTagChar (takeWhile isTagChar u)"
    by (simp add: list_all_iff) (meson set_takeWhileD)
  with True e show ?thesis by (simp add: Let_def)
next
  case False
  then have "dropWhile isTagChar u \<noteq> []" "\<not> isSpace (hd (dropWhile isTagChar u))" by simp_all
  from run_is_not_token [of isTagChar "\<lambda>c. \<not> isSpace c" u, OF tagChar_not_space this]
  have "\<not> list_all isTagChar (takeWhile (\<lambda>c. \<not> isSpace c) u)" .
  with False show ?thesis by (simp add: Let_def)
qed

lemma stripHash_token:
  "stripHash (takeWhile (\<lambda>c. \<not> isSpace c) s) = takeWhile (\<lambda>c. \<not> isSpace c) (stripHash s)
   \<and> (s \<noteq> [] \<and> hd s = CHR ''#'' \<longrightarrow>
        dropWhile (\<lambda>c. \<not> isSpace c) s = dropWhile (\<lambda>c. \<not> isSpace c) (stripHash s))"
  by (cases s) (auto simp: hash_not_space)

lemma matchTagAt_token:
  "matchTagAt s =
     (case spec_tokenTag (takeWhile (\<lambda>c. \<not> isSpace c) s) of
        Some t \<Rightarrow> Some (t, dropWhile (\<lambda>c. \<not> isSpace c) s)
      | None \<Rightarrow> None)"
proof -
  have d: "spec_tokenTag (takeWhile (\<lambda>c. \<not> isSpace c) s) \<noteq> None \<Longrightarrow>
           dropWhile (\<lambda>c. \<not> isSpace c) s = dropWhile (\<lambda>c. \<not> isSpace c) (stripHash s)"
    by (cases s) (auto simp: hash_not_space spec_tokenTag_def)
  show ?thesis
    using match_is_token_plain [of "stripHash s"] d stripHash_token [of s]
    by (auto simp: matchTagAt_def spec_tokenTag_def Let_def split: option.splits if_splits)
qed

lemma spec_tokenTag_Nil: "spec_tokenTag [] = None"
  by (simp add: spec_tokenTag_def)

lemma scanFrom_False:
  "scanFrom False s = List.map_filter spec_tokenTag (tl (splitBy isSpace s))"
proof (induction s rule: length_induct)
  case (1 s)
  show ?case
  proof (cases s)
    case Nil
    show ?thesis unfolding Nil by (simp add: scanFrom.simps [of False "[]"])
  next
    case (Cons c cs)
    show ?thesis
    proof (cases "isSpace c")
      case False
      have "scanFrom False s = scanFrom False cs"
        unfolding Cons using False by (simp add: scanFrom.simps [of False "c # cs"])
      moreover have "tl (splitBy isSpace s) = tl (splitBy isSpace cs)"
        using Cons False by (simp split: list.splits)
      ultimately show ?thesis using 1 Cons by simp
    next
      case True
      let ?r = "dropWhile (\<lambda>c. \<not> isSpace c) cs"
      have len: "length ?r < length s"
        using Cons length_dropWhile_le [of "\<lambda>c. \<not> isSpace c" cs] by simp
      have sp: "tl (splitBy isSpace s) = takeWhile (\<lambda>c. \<not> isSpace c) cs # tl (splitBy isSpace ?r)"
        using Cons True splitBy_token [of cs] by simp
      show ?thesis
      proof (cases "spec_tokenTag (takeWhile (\<lambda>c. \<not> isSpace c) cs)")
        case None
        then have "scanFrom False s = scanFrom False cs"
          unfolding Cons using True by (simp add: scanFrom.simps [of False "c # cs"] matchTagAt_token)
        also have "\<dots> = List.map_filter spec_tokenTag (tl (splitBy isSpace cs))"
          using 1 Cons by simp
        also have "\<dots> = List.map_filter spec_tokenTag (tl (splitBy isSpace s))"
          using None sp splitBy_token [of cs] by simp
        finally show ?thesis .
      next
        case (Some t)
        then have "scanFrom False s = t # scanFrom False ?r"
          unfolding Cons using True by (simp add: scanFrom.simps [of False "c # cs"] matchTagAt_token)
        also have "scanFrom False ?r = List.map_filter spec_tokenTag (tl (splitBy isSpace ?r))"
          using 1 len by simp
        finally show ?thesis using Some sp by simp
      qed
    qed
  qed
qed

lemma scanFrom_True:
  "scanFrom True s = spec_bodyTags s"
proof (cases "spec_tokenTag (takeWhile (\<lambda>c. \<not> isSpace c) s)")
  case (Some t)
  then have "scanFrom True s = t # scanFrom False (dropWhile (\<lambda>c. \<not> isSpace c) s)"
    by (simp add: scanFrom.simps [of True s] matchTagAt_token)
  then show ?thesis
    using Some splitBy_token [of s] by (simp add: spec_bodyTags_def scanFrom_False)
next
  case None
  show ?thesis
  proof (cases s)
    case Nil
    show ?thesis unfolding Nil
      by (simp add: scanFrom.simps [of True "[]"] spec_bodyTags_def matchTagAt_token spec_tokenTag_Nil)
  next
    case (Cons c cs)
    have "scanFrom True s = scanFrom False s"
      using None unfolding Cons
      by (simp add: scanFrom.simps [of True "c # cs"] scanFrom.simps [of False "c # cs"] matchTagAt_token)
    then show ?thesis
      using None splitBy_token [of s] by (simp add: spec_bodyTags_def scanFrom_False)
  qed
qed

subsection \<open>Extraction\<close>

lemmas fixture_eval = frontmatterDoc_def yamlOf_def yamlFails_def memoryHost_def startsWith_def

text \<open>
  C4 (amended).  Extraction yields the frontmatter tags first and the body tags after
  them, in order and without removing duplicates.  The frontmatter tags are those of a
  truthy \<^verbatim>\<open>tags\<close> value (an array as it is, any other value as a one-element
  sequence), each coerced to a string and without one leading hash mark; a falsy value
  (absent, null, false, 0, the empty string) gives none.  The body tags are the tokens
  of the specification: bounded by white space or the ends of the text, made of
  \<^verbatim>\<open>[A-Za-z0-9_/-]\<close>, an optional leading hash mark dropped.
\<close>

theorem extraction_order:
  "extractTags h content =
     (case fmMatch content of
        None \<Rightarrow> (spec_bodyTags content, [])
      | Some (fm, body) \<Rightarrow>
          (case parseYaml h fm of
             None \<Rightarrow> (spec_bodyTags body, [ConsoleWarn YamlParseFailed])
           | Some fmObj \<Rightarrow>
               if truthy fmObj \<and> truthy (getProp fmObj ''tags'')
               then (map (\<lambda>t. stripHash (String t)) (asArray (getProp fmObj ''tags''))
                       @ spec_bodyTags body, [])
               else (spec_bodyTags body, [])))"
proof (cases "fmMatch content")
  case None
  then show ?thesis by (simp add: extractTags_def scanFrom_True)
next
  case (Some m)
  obtain fm body where m: "m = (fm, body)" by (cases m)
  have scan: "scanFrom True body = spec_bodyTags body" by (rule scanFrom_True)
  show ?thesis
  proof (cases "parseYaml h fm")
    case None
    with Some m scan show ?thesis by (simp add: extractTags_def frontmatterTags_def)
  next
    case (Some fmObj)
    with \<open>fmMatch content = Some m\<close> m scan show ?thesis
      by (simp add: extractTags_def frontmatterTags_def)
  qed
qed

text \<open>Frontmatter \<^verbatim>\<open>[a, b]\<close> with body \<^verbatim>\<open>#c d\<close>, and a document that repeats one tag four times.\<close>

theorem extraction_order_witness:
  "fst (extractTags hostAB docAB) = [''a'', ''b'', ''c'', ''d'']
   \<and> fst (extractTags hostDup docDup) = [''a'', ''a'', ''a'', ''a'']"
  using extraction_order [of hostAB docAB] extraction_order [of hostDup docDup]
  by (simp add: docAB_def hostAB_def docDup_def hostDup_def fixture_eval fmMatch_def char_classes
        spec_bodyTags_def spec_tokenTag_def map_filter_simps)

text \<open>
  C4 as stated fails on a scalar that is falsy: with \<^verbatim>\<open>tags: 0\<close> the code
  extracts nothing, where a one-element sequence would give the tag \<^verbatim>\<open>0\<close>.
\<close>

theorem extraction_falsy_scalar_counterexample:
  "fst (extractTags hostZero docZero) = []
   \<and> spec_extract (Num 0) [newline] = [''0'']
   \<and> fmMatch docZero = Some (''tags: 0'', [newline])
   \<and> parseYaml hostZero ''tags: 0'' = Some (Obj [(''tags'', Num 0)])"
  by (simp add: docZero_def hostZero_def fixture_eval extract_eval scanFrom.simps
        spec_extract_def spec_bodyTags_def spec_tokenTag_def map_filter_simps showInt_def digitChar_def)







subsection \<open>Choosing the destination\<close>

lemma find_first:
  assumes "\<forall>x \<in> set skipped. \<not> P x" and "P x"
  shows "List.find P (skipped @ x # others) = Some x"
  using assms by (induction skipped) auto

lemma find_none: "(\<forall>x \<in> set xs. \<not> P x) \<Longrightarrow> List.find P xs = None"
  by (induction xs) auto

lemma firstRuleMatch_skips:
  assumes "\<forall>u \<in> set before. \<forall>r \<in> set rules. stripHash (tagPattern r) \<noteq> stripHash u"
  shows "firstRuleMatch rules (before @ tags) = firstRuleMatch rules tags"
  using assms
proof (induction before)
  case Nil
  then show ?case by simp
next
  case (Cons u before)
  then have "List.find (\<lambda>r. stripHash (tagPattern r) = stripHash u) rules = None"
    by (intro find_none) simp
  with Cons show ?case by simp
qed

lemma resolve_Nil: "resolve s [] = NoMatch"
  by (simp add: resolve_def)

text \<open>
  C1 (amended).  Pass 1 scans tags outside and rules inside: when no earlier tag
  matches any rule, and \<open>rule\<close> is the first rule of the table whose pattern equals
  the tag \<open>t\<close>, both with one leading hash mark stripped and quotes left as they are,
  then \<open>rule\<close> is selected, whatever tags follow and whichever rules they match, and
  \<^verbatim>\<open>processFile\<close> at once calls \<^verbatim>\<open>moveFileToProject\<close> with the destination of
  the rule and the full-path flag true; its outcome is the outcome of that call.
\<close>

theorem rule_pass_tags_outer:
  fixes h :: "'w Host"
  assumes "\<forall>u \<in> set before. \<forall>r \<in> set (tagRules s). stripHash (tagPattern r) \<noteq> stripHash u"
    and "tagRules s = skipped @ rule # others"
    and "\<forall>r \<in> set skipped. stripHash (tagPattern r) \<noteq> stripHash t"
    and "stripHash (tagPattern rule) = stripHash t"
  shows "firstRuleMatch (tagRules s) (before @ t # after) = Some (t, rule)
       \<and> resolve s (before @ t # after) = RuleMatch t rule
       \<and> (vault_read h w f = Some content \<and> extractTags h content = (before @ t # after, evs) \<longrightarrow>
            processFile h s f w =
              (case moveFileToProject h s f (destination rule) True w of
                 (Inr moveSuccess, w', evs') \<Rightarrow>
                   (if moveSuccess then Inr () else Inl (RuleMoveFailed t (destination rule)),
                    w', Read (path f) # evs @ evs')
               | (Inl e, w', evs') \<Rightarrow> (Inl e, w', Read (path f) # evs @ evs')))"
proof -
  have "List.find (\<lambda>r. stripHash (tagPattern r) = stripHash t) (tagRules s) = Some rule"
    unfolding assms(2) using assms(3,4) by (intro find_first) simp_all
  then have "firstRuleMatch (tagRules s) (t # after) = Some (t, rule)"
    by simp
  with firstRuleMatch_skips [OF assms(1), of "t # after"]
  have first: "firstRuleMatch (tagRules s) (before @ t # after) = Some (t, rule)"
    by simp
  then have res: "resolve s (before @ t # after) = RuleMatch t rule"
    by (simp add: resolve_def)
  have "processFile h s f w =
          (case moveFileToProject h s f (destination rule) True w of
             (Inr moveSuccess, w', evs') \<Rightarrow>
               (if moveSuccess then Inr () else Inl (RuleMoveFailed t (destination rule)),
                w', Read (path f) # evs @ evs')
           | (Inl e, w', evs') \<Rightarrow> (Inl e, w', Read (path f) # evs @ evs'))"
    if "vault_read h w f = Some content" and "extractTags h content = (before @ t # after, evs)"
    using that res
    by (simp add: processFile_def moveOrThrow_def split: prod.splits sum.splits)
  with first res show ?thesis by blast
qed

text \<open>
  A note with the tags \<^verbatim>\<open>random\<close>, \<^verbatim>\<open>personal/health\<close>, \<^verbatim>\<open>work/urgent\<close>, in
  this order: the second tag matches the second rule and wins over the third tag, which
  matches the first rule; the note is renamed to the destination of the second rule,
  taken from the vault root.
\<close>

theorem rule_pass_tags_outer_witness:
  "resolve DEFAULT_SETTINGS [''random'', ''#personal/health'', ''work/urgent'']
     = RuleMatch ''#personal/health'' \<lparr>tagPattern = ''personal/health'', destination = ''04_personal/health''\<rparr>
   \<and> processFile (memoryHost yamlFails) DEFAULT_SETTINGS noteX vaultRules =
       (Inr (),
        \<lparr>files = [(''04_personal/health/x.md'', ''random #personal/health work/urgent'')],
           folders = [''04_personal/health'']\<rparr>,
        [Read ''02/notes/x.md'', Exists ''04_personal/health'', Mkdir ''04_personal/health'',
         Rename ''02/notes/x.md'' ''04_personal/health/x.md'', Notice (MovedTo ''04_personal/health/x.md'')])"
proof -
  have rules: "tagRules DEFAULT_SETTINGS =
      [\<lparr>tagPattern = ''work/urgent'', destination = ''01_inbox/urgent''\<rparr>]
        @ \<lparr>tagPattern = ''personal/health'', destination = ''04_personal/health''\<rparr> # []"
    by (simp add: DEFAULT_SETTINGS_def)
  have 1: "resolve DEFAULT_SETTINGS ([''random''] @ ''#personal/health'' # [''work/urgent''])
     = RuleMatch ''#personal/health'' \<lparr>tagPattern = ''personal/health'', destination = ''04_personal/health''\<rparr>"
    by (rule rule_pass_tags_outer [OF _ rules, THEN conjunct2, THEN conjunct1])
       (simp_all add: DEFAULT_SETTINGS_def)
  have read: "vault_read (memoryHost yamlFails) vaultRules noteX = Some ''random #personal/health work/urgent''
      \<and> extractTags (memoryHost yamlFails) ''random #personal/health work/urgent''
          = ([''random''] @ ''personal/health'' # [''work/urgent''], [])"
    by (simp add: vaultRules_def noteX_def memoryHost_def extract_eval startsWith_def scanFrom.simps)
  have 2: "processFile (memoryHost yamlFails) DEFAULT_SETTINGS noteX vaultRules =
      (case moveFileToProject (memoryHost yamlFails) DEFAULT_SETTINGS noteX
              (destination \<lparr>tagPattern = ''personal/health'', destination = ''04_personal/health''\<rparr>) True vaultRules of
         (Inr moveSuccess, w', evs') \<Rightarrow>
           (if moveSuccess then Inr ()
            else Inl (RuleMoveFailed ''personal/health''
                   (destination \<lparr>tagPattern = ''personal/health'', destination = ''04_personal/health''\<rparr>)),
            w', Read (path noteX) # [] @ evs')
       | (Inl e, w', evs') \<Rightarrow> (Inl e, w', Read (path noteX) # [] @ evs'))"
    by (rule rule_pass_tags_outer [OF _ rules, THEN conjunct2, THEN conjunct2, rule_format, OF _ _ _ read])
       (auto simp: DEFAULT_SETTINGS_def)
  from 1 2 show ?thesis
    by (simp add: move_eval vaultRules_def)
qed

text \<open>
  C1 as stated fails on a tag that carries quotes: the code strips no quotes before
  comparing, so the quoted tag matches no rule and the note is not moved, where the
  normalisation of the specification selects the first rule.
\<close>

theorem rule_pass_quotes_counterexample:
  "firstRuleMatch (tagRules DEFAULT_SETTINGS) [quotedUrgent] = None
   \<and> resolve DEFAULT_SETTINGS [quotedUrgent] = NoMatch
   \<and> spec_pass1 (tagRules DEFAULT_SETTINGS) [quotedUrgent] = Some (''01_inbox/urgent'', True)
   \<and> extractTags hostQuoted (frontmatterDoc fmQuoted []) = ([quotedUrgent], [])
   \<and> processFile hostQuoted DEFAULT_SETTINGS noteX vaultQuoted
       = (Inl NoMatchingTagError, vaultQuoted, [Read ''02/notes/x.md''])"
  by (simp add: DEFAULT_SETTINGS_def quotedUrgent_def resolve_def startsWith_def normalizeTag_def
        stripQuotes_def isQuote_def isQuoteOrHash_def processFile_def hostQuoted_def vaultQuoted_def
        fmQuoted_def noteX_def fixture_eval extract_eval scanFrom.simps)

lemma extractTags_events:
  "extractTags h content = (tags, evs) \<Longrightarrow> evs = [] \<or> evs = [ConsoleWarn YamlParseFailed]"
  by (auto simp: extractTags_def frontmatterTags_def split: option.splits prod.splits if_splits)

lemma find_unchanged:
  assumes "\<forall>u \<in> set tags. g u = u"
  shows "List.find (\<lambda>t. P (g t)) tags = List.find P tags"
  using assms by (induction tags) auto

lemma find_in_set: "List.find P xs = Some x \<Longrightarrow> x \<in> set xs"
  by (induction xs) (auto split: if_splits)

text \<open>
  C3 (amended).  Pass 2 runs only when pass 1 matched no rule: when a rule matched,
  \<^verbatim>\<open>processFile\<close> moves by that rule.  Otherwise the first tag that starts with the
  prefix (the prefix without one leading hash mark, the tag as extraction left it:
  this pass strips neither quotes nor hash marks) is the prefix followed by a rest;
  when that tag is not empty \<^verbatim>\<open>processFile\<close> calls \<^verbatim>\<open>moveFileToProject\<close> with
  the rest and the full-path flag false, and when it is empty nothing is chosen.  When
  no tag starts with the prefix nothing is chosen, and a file for which nothing is
  chosen fails with the "no matching tag" error, the vault unchanged and no request
  made beyond reading the file.  On tags that are their own normal form, the tag found
  is the one the specification finds.
\<close>

theorem prefix_fallback:
  fixes h :: "'w Host" and s :: Settings
  defines "pjtPrefix \<equiv> stripHash (tagPrefix s)"
  shows "(firstRuleMatch (tagRules s) tags = Some (pattern, rule) \<longrightarrow>
            resolve s tags = RuleMatch pattern rule \<and>
            (vault_read h w f = Some content \<and> extractTags h content = (tags, evs) \<longrightarrow>
               processFile h s f w =
                 (case moveFileToProject h s f (destination rule) True w of
                    (Inr moveSuccess, w', evs') \<Rightarrow>
                      (if moveSuccess then Inr () else Inl (RuleMoveFailed pattern (destination rule)),
                       w', Read (path f) # evs @ evs')
                  | (Inl e, w', evs') \<Rightarrow> (Inl e, w', Read (path f) # evs @ evs'))))
       \<and> (firstRuleMatch (tagRules s) tags = None \<and> tags = before @ t # after \<and>
            (\<forall>u \<in> set before. \<not> startsWith u pjtPrefix) \<and> startsWith t pjtPrefix \<longrightarrow>
            t = pjtPrefix @ drop (length pjtPrefix) t \<and>
            (t \<noteq> [] \<longrightarrow>
               resolve s tags = PrefixMatch t (drop (length pjtPrefix) t) \<and>
               (vault_read h w f = Some content \<and> extractTags h content = (tags, evs) \<longrightarrow>
                  processFile h s f w =
                    (case moveFileToProject h s f (drop (length pjtPrefix) t) False w of
                       (Inr moveSuccess, w', evs') \<Rightarrow>
                         (if moveSuccess then Inr () else Inl (PjtMoveFailed t),
                          w', Read (path f) # evs @ evs')
                     | (Inl e, w', evs') \<Rightarrow> (Inl e, w', Read (path f) # evs @ evs')))) \<and>
            (t = [] \<longrightarrow> resolve s tags = NoMatch))
       \<and> (firstRuleMatch (tagRules s) tags = None \<and> (\<forall>u \<in> set tags. \<not> startsWith u pjtPrefix) \<longrightarrow>
            resolve s tags = NoMatch)
       \<and> (vault_read h w f = Some content \<and> extractTags h content = (tags, evs) \<and> tags \<noteq> [] \<and>
            resolve s tags = NoMatch \<longrightarrow>
            processFile h s f w = (Inl NoMatchingTagError, w, Read (path f) # evs) \<and>
            (evs = [] \<or> evs = [ConsoleWarn YamlParseFailed]))
       \<and> ((\<forall>u \<in> set tags. normalizeTag u = u) \<longrightarrow>
            spec_pass2 (tagPrefix s) tags =
              (case List.find (\<lambda>t. startsWith t pjtPrefix) tags of
                 None \<Rightarrow> None
               | Some t \<Rightarrow> Some (drop (length pjtPrefix) t, False)))"
proof -
  have a: "resolve s tags = RuleMatch pattern rule \<and>
            (vault_read h w f = Some content \<and> extractTags h content = (tags, evs) \<longrightarrow>
               processFile h s f w =
                 (case moveFileToProject h s f (destination rule) True w of
                    (Inr moveSuccess, w', evs') \<Rightarrow>
                      (if moveSuccess then Inr () else Inl (RuleMoveFailed pattern (destination rule)),
                       w', Read (path f) # evs @ evs')
                  | (Inl e, w', evs') \<Rightarrow> (Inl e, w', Read (path f) # evs @ evs')))"
    if "firstRuleMatch (tagRules s) tags = Some (pattern, rule)"
  proof -
    from that have res: "resolve s tags = RuleMatch pattern rule"
      by (simp add: resolve_def)
    then have ne: "tags \<noteq> []" using resolve_Nil [of s] by auto
    have "processFile h s f w =
            (case moveFileToProject h s f (destination rule) True w of
               (Inr moveSuccess, w', evs') \<Rightarrow>
                 (if moveSuccess then Inr () else Inl (RuleMoveFailed pattern (destination rule)),
                  w', Read (path f) # evs @ evs')
             | (Inl e, w', evs') \<Rightarrow> (Inl e, w', Read (path f) # evs @ evs'))"
      if "vault_read h w f = Some content" and "extractTags h content = (tags, evs)"
      using that res ne
      by (simp add: processFile_def moveOrThrow_def split: prod.splits sum.splits)
    with res show ?thesis by blast
  qed
  have b: "t = pjtPrefix @ drop (length pjtPrefix) t \<and>
            (t \<noteq> [] \<longrightarrow>
               resolve s tags = PrefixMatch t (drop (length pjtPrefix) t) \<and>
               (vault_read h w f = Some content \<and> extractTags h content = (tags, evs) \<longrightarrow>
                  processFile h s f w =
                    (case moveFileToProject h s f (drop (length pjtPrefix) t) False w of
                       (Inr moveSuccess, w', evs') \<Rightarrow>
                         (if moveSuccess then Inr () else Inl (PjtMoveFailed t),
                          w', Read (path f) # evs @ evs')
                     | (Inl e, w', evs') \<Rightarrow> (Inl e, w', Read (path f) # evs @ evs')))) \<and>
            (t = [] \<longrightarrow> resolve s tags = NoMatch)"
    if "firstRuleMatch (tagRules s) tags = None \<and> tags = before @ t # after \<and>
            (\<forall>u \<in> set before. \<not> startsWith u pjtPrefix) \<and> startsWith t pjtPrefix"
  proof -
    from that have fr: "firstRuleMatch (tagRules s) tags = None" by blast
    from that have fd: "List.find (\<lambda>t. startsWith t (stripHash (tagPrefix s))) tags = Some t"
      unfolding pjtPrefix_def by (auto intro: find_first)
    have eq: "t = pjtPrefix @ drop (length pjtPrefix) t"
      using that by (metis append_take_drop_id startsWith_def)
    have res: "resolve s tags = (if t \<noteq> [] then PrefixMatch t (drop (length pjtPrefix) t) else NoMatch)"
      using fr fd by (simp add: resolve_def pjtPrefix_def Let_def)
    show ?thesis
    proof (cases "t = []")
      case True
      with eq res show ?thesis by simp
    next
      case False
      with res have pm: "resolve s tags = PrefixMatch t (drop (length pjtPrefix) t)" by simp
      then have ne: "tags \<noteq> []" using resolve_Nil [of s] by auto
      have "processFile h s f w =
              (case moveFileToProject h s f (drop (length pjtPrefix) t) False w of
                 (Inr moveSuccess, w', evs') \<Rightarrow>
                   (if moveSuccess then Inr () else Inl (PjtMoveFailed t),
                    w', Read (path f) # evs @ evs')
               | (Inl e, w', evs') \<Rightarrow> (Inl e, w', Read (path f) # evs @ evs'))"
        if "vault_read h w f = Some content" and "extractTags h content = (tags, evs)"
        using that pm ne
        by (simp add: processFile_def moveOrThrow_def split: prod.splits sum.splits)
      with pm eq False show ?thesis by blast
    qed
  qed
  have c: "resolve s tags = NoMatch"
    if "firstRuleMatch (tagRules s) tags = None \<and> (\<forall>u \<in> set tags. \<not> startsWith u pjtPrefix)"
  proof -
    from that have fr: "firstRuleMatch (tagRules s) tags = None" by blast
    from that have "List.find (\<lambda>t. startsWith t (stripHash (tagPrefix s))) tags = None"
      unfolding pjtPrefix_def by (auto intro: find_none)
    with fr show ?thesis by (simp add: resolve_def Let_def)
  qed
  have d: "processFile h s f w = (Inl NoMatchingTagError, w, Read (path f) # evs) \<and>
            (evs = [] \<or> evs = [ConsoleWarn YamlParseFailed])"
    if "vault_read h w f = Some content \<and> extractTags h content = (tags, evs) \<and> tags \<noteq> [] \<and>
            resolve s tags = NoMatch"
    using that extractTags_events [of h content tags evs] by (simp add: processFile_def)
  have e: "spec_pass2 (tagPrefix s) tags =
              (case List.find (\<lambda>t. startsWith t pjtPrefix) tags of
                 None \<Rightarrow> None
               | Some t \<Rightarrow> Some (drop (length pjtPrefix) t, False))"
    if n: "\<forall>u \<in> set tags. normalizeTag u = u"
  proof -
    have "List.find (\<lambda>t. startsWith (normalizeTag t) pjtPrefix) tags
            = List.find (\<lambda>t. startsWith t pjtPrefix) tags"
      using find_unchanged [of tags normalizeTag "\<lambda>t. startsWith t pjtPrefix"] n by simp
    then show ?thesis
      using n by (auto simp: spec_pass2_def pjtPrefix_def split: option.splits dest: find_in_set)
  qed
  from a b c d e show ?thesis by blast
qed

text \<open>
  The cases on the default settings: a prefix tag after an unrelated tag, with the note
  renamed under the root folder; a rule tag before a prefix tag; no matching tag.
\<close>

theorem prefix_fallback_witness:
  "resolve DEFAULT_SETTINGS [''random'', ''pjt/alpha/beta'', ''pjt/other'']
     = PrefixMatch ''pjt/alpha/beta'' ''alpha/beta''
   \<and> processFile (memoryHost yamlFails) DEFAULT_SETTINGS noteX vaultPrefix =
       (Inr (),
        \<lparr>files = [(''03_project/alpha/beta/x.md'', ''random pjt/alpha/beta pjt/other'')],
           folders = [''03_project/alpha/beta'']\<rparr>,
        [Read ''02/notes/x.md'', Exists ''03_project/alpha/beta'', Mkdir ''03_project/alpha/beta'',
         Rename ''02/notes/x.md'' ''03_project/alpha/beta/x.md'',
         Notice (MovedTo ''03_project/alpha/beta/x.md'')])
   \<and> resolve DEFAULT_SETTINGS [''work/urgent'', ''pjt/alpha''] =
        RuleMatch ''work/urgent'' \<lparr>tagPattern = ''work/urgent'', destination = ''01_inbox/urgent''\<rparr>
   \<and> resolve DEFAULT_SETTINGS [''random''] = NoMatch
   \<and> processFile (memoryHost yamlFails) DEFAULT_SETTINGS noteX (vaultX\<lparr>files := [(''02/notes/x.md'', ''random'')]\<rparr>)
       = (Inl NoMatchingTagError, vaultX\<lparr>files := [(''02/notes/x.md'', ''random'')]\<rparr>, [Read ''02/notes/x.md''])
   \<and> spec_pass2 (tagPrefix DEFAULT_SETTINGS) [''random'', ''pjt/alpha/beta'', ''pjt/other'']
       = Some (''alpha/beta'', False)"
  using prefix_fallback [where h = "memoryHost yamlFails" and s = DEFAULT_SETTINGS
      and tags = "[''random'', ''pjt/alpha/beta'', ''pjt/other'']"
      and before = "[''random'']" and t = "''pjt/alpha/beta''" and after = "[''pjt/other'']"
      and w = vaultPrefix and f = noteX and content = "''random pjt/alpha/beta pjt/other''" and evs = "[]"]
  by (simp add: batch_eval extract_eval move_eval scanFrom.simps vaultPrefix_def
        spec_pass2_def normalizeTag_def stripQuotes_def isQuote_def isQuoteOrHash_def)

text \<open>
  C3 as stated fails in three ways.  When the first tag that starts with the prefix is
  the empty string (the prefix is then empty too), the test \<^verbatim>\<open>if (pjtTag)\<close> takes
  it for "not found".  And the tags are compared as they are: a tag in quotes, or a tag
  that extraction left with a hash mark (frontmatter \<^verbatim>\<open>'##pjt/alpha'\<close>), does not
  start with the prefix, where its normalised form does.
\<close>

theorem prefix_fallback_counterexample:
  "resolve (DEFAULT_SETTINGS\<lparr>tagPrefix := ''#''\<rparr>) ['''', ''alpha''] = NoMatch
   \<and> spec_resolve (DEFAULT_SETTINGS\<lparr>tagPrefix := ''#''\<rparr>) ['''', ''alpha''] = Some ('''', False)
   \<and> resolve DEFAULT_SETTINGS [quotedAlpha] = NoMatch
   \<and> spec_resolve DEFAULT_SETTINGS [quotedAlpha] = Some (''alpha'', False)
   \<and> resolve DEFAULT_SETTINGS [''#pjt/alpha''] = NoMatch
   \<and> spec_resolve DEFAULT_SETTINGS [''#pjt/alpha''] = Some (''alpha'', False)
   \<and> extractTags hostHashes (frontmatterDoc fmHashes []) = ([''#pjt/alpha''], [])
   \<and> processFile hostHashes DEFAULT_SETTINGS noteX vaultHashes
       = (Inl NoMatchingTagError, vaultHashes, [Read ''02/notes/x.md''])"
  by (simp add: DEFAULT_SETTINGS_def resolve_def spec_resolve_def spec_pass2_def startsWith_def
        normalizeTag_def stripQuotes_def isQuote_def isQuoteOrHash_def quotedAlpha_def
        processFile_def hostHashes_def vaultHashes_def fmHashes_def noteX_def fixture_eval
        extract_eval scanFrom.simps)

text \<open>
  C6 (amended).  The target path is the normalised form of the normalised destination
  joined with the base name (after the root folder when the destination is not a full
  path), and a rename request names exactly this path.  When normalisation changes
  neither the destination nor the joined path, it is the plain concatenation.  The note
  \<^verbatim>\<open>02/notes/x.md\<close> with body tag \<^verbatim>\<open>pjt/q1\<close> and root folder
  \<^verbatim>\<open>03_project\<close> is moved to \<^verbatim>\<open>03_project/q1/x.md\<close>.
\<close>

theorem target_path_normalised:
  fixes h :: "'w Host" and s :: Settings and f :: TFile
  shows "targetPathOf h s f p True = normalizePath h (normalizePath h p @ ''/'' @ name f)
       \<and> targetPathOf h s f p False =
           normalizePath h (rootFolder s @ ''/'' @ normalizePath h p @ ''/'' @ name f)
       \<and> (moveFileToProject h s f p isFullPath w = (r, w', evs) \<and> Rename src dst \<in> set evs \<longrightarrow>
            src = path f \<and> dst = targetPathOf h s f p isFullPath)
       \<and> (normalizePath h p = p \<and>
            normalizePath h (spec_targetPath s f p isFullPath) = spec_targetPath s f p isFullPath \<longrightarrow>
            targetPathOf h s f p isFullPath = spec_targetPath s f p isFullPath)
       \<and> processFile (memoryHost yamlFails) DEFAULT_SETTINGS noteX vaultX =
           (Inr (), \<lparr>files = [(''03_project/q1/x.md'', ''pjt/q1'')], folders = [''03_project/q1'']\<rparr>,
            [Read ''02/notes/x.md'', Exists ''03_project/q1'', Mkdir ''03_project/q1'',
             Rename ''02/notes/x.md'' ''03_project/q1/x.md'', Notice (MovedTo ''03_project/q1/x.md'')])"
proof -
  have rn: "src = path f \<and> dst = targetPathOf h s f p isFullPath"
    if "moveFileToProject h s f p isFullPath w = (r, w', evs) \<and> Rename src dst \<in> set evs"
    using that
    by (auto simp: moveFileToProject_def moveAttempt_def renameStep_def Let_def
          split: if_splits option.splits bool.splits prod.splits sum.splits)
  have e2e: "processFile (memoryHost yamlFails) DEFAULT_SETTINGS noteX vaultX =
           (Inr (), \<lparr>files = [(''03_project/q1/x.md'', ''pjt/q1'')], folders = [''03_project/q1'']\<rparr>,
            [Read ''02/notes/x.md'', Exists ''03_project/q1'', Mkdir ''03_project/q1'',
             Rename ''02/notes/x.md'' ''03_project/q1/x.md'', Notice (MovedTo ''03_project/q1/x.md'')])"
    by (simp add: batch_eval extract_eval move_eval scanFrom.simps)
  show ?thesis
    using rn e2e by (auto simp: targetPathOf_def spec_targetPath_def)
qed

text \<open>Two destinations that are already in normal form.\<close>

theorem target_path_normalised_witness:
  "targetPathOf (memoryHost yamlFails) DEFAULT_SETTINGS noteX ''q1'' False = ''03_project/q1/x.md''
   \<and> targetPathOf (memoryHost yamlFails) DEFAULT_SETTINGS noteX ''01_inbox/urgent'' True = ''01_inbox/urgent/x.md''"
proof -
  have 1: "normalizePath (memoryHost yamlFails) ''q1'' = ''q1'' \<and>
        normalizePath (memoryHost yamlFails) (spec_targetPath DEFAULT_SETTINGS noteX ''q1'' False)
          = spec_targetPath DEFAULT_SETTINGS noteX ''q1'' False"
    by (simp add: memoryHost_def spec_normalizePath_def spec_targetPath_def DEFAULT_SETTINGS_def noteX_def)
  have 2: "normalizePath (memoryHost yamlFails) ''01_inbox/urgent'' = ''01_inbox/urgent'' \<and>
        normalizePath (memoryHost yamlFails) (spec_targetPath DEFAULT_SETTINGS noteX ''01_inbox/urgent'' True)
          = spec_targetPath DEFAULT_SETTINGS noteX ''01_inbox/urgent'' True"
    by (simp add: memoryHost_def spec_normalizePath_def spec_targetPath_def DEFAULT_SETTINGS_def noteX_def)
  from target_path_normalised [THEN conjunct2, THEN conjunct2, THEN conjunct2, THEN conjunct1, rule_format, OF 1]
    target_path_normalised [THEN conjunct2, THEN conjunct2, THEN conjunct2, THEN conjunct1, rule_format, OF 2]
  show ?thesis
    by (simp add: spec_targetPath_def DEFAULT_SETTINGS_def noteX_def)
qed

text \<open>
  C6 as stated fails on a destination that is not in normal form: the double slash is
  collapsed, so the file is not renamed to the plain concatenation.
\<close>

theorem target_path_counterexample:
  "moveFileToProject (memoryHost yamlFails) DEFAULT_SETTINGS noteX ''01_inbox//urgent'' True vaultX =
     (Inr True, \<lparr>files = [(''01_inbox/urgent/x.md'', ''pjt/q1'')], folders = [''01_inbox/urgent'']\<rparr>,
      [Exists ''01_inbox/urgent'', Mkdir ''01_inbox/urgent'',
       Rename ''02/notes/x.md'' ''01_inbox/urgent/x.md'', Notice (MovedTo ''01_inbox/urgent/x.md'')])
   \<and> spec_targetPath DEFAULT_SETTINGS noteX ''01_inbox//urgent'' True = ''01_inbox//urgent/x.md''"
  by (simp add: move_eval spec_targetPath_def)

end
